theory Spec2Isabelle
  imports Complex_Main
begin

section \<open>Numbers, errors and array helpers\<close>

text \<open>
  The evaluation engine of the suspension tester works on NumPy \<open>float64\<close> arrays (Python)
  and on C \<open>double\<close> arrays (the extension module). Samples are modelled as \<open>real\<close>: the
  theory is about which samples, which formula and which branch the code uses, not about
  rounding. Wherever the code can divide by zero the model has a branch of its own, because
  \<open>x / 0 = 0\<close> in HOL while Python raises and C produces an infinity or a NaN.

  Exceptions are values: a function that can raise returns \<open>py_error + 'a\<close>.
\<close>

datatype py_error = ValueError | ZeroDivisionError | IndexError | TypeError

text \<open>Python's \<open>x % m\<close> on floats (the sign of the result follows \<open>m\<close>).\<close>

definition py_mod :: "real \<Rightarrow> real \<Rightarrow> real" where
  "py_mod x m = x - m * of_int \<lfloor>x / m\<rfloor>"

text \<open>C's \<open>fmod(x, m)\<close>: the quotient is truncated towards zero, the sign follows \<open>x\<close>.\<close>

definition c_trunc :: "real \<Rightarrow> int" where
  "c_trunc r = (if 0 \<le> r then \<lfloor>r\<rfloor> else \<lceil>r\<rceil>)"

definition c_fmod :: "real \<Rightarrow> real \<Rightarrow> real" where
  "c_fmod x m = x - m * of_int (c_trunc (x / m))"

text \<open>The slice \<open>xs[start:end]\<close> of Python and NumPy (for non-negative bounds).\<close>

definition slice :: "'a list \<Rightarrow> nat \<Rightarrow> nat \<Rightarrow> 'a list" where
  "slice xs start_idx end_idx = drop start_idx (take end_idx xs)"

text \<open>
  \<open>np.argmin\<close>: the index of the first occurrence of the least element
  (\<open>argmin_from best best_idx i rest\<close> scans \<open>rest\<close>, whose first element has index \<open>i\<close>).
\<close>

fun argmin_from :: "real \<Rightarrow> nat \<Rightarrow> nat \<Rightarrow> real list \<Rightarrow> nat" where
  "argmin_from best best_idx i [] = best_idx"
| "argmin_from best best_idx i (x # xs) =
     (if x < best then argmin_from x i (Suc i) xs else argmin_from best best_idx (Suc i) xs)"

definition argmin :: "real list \<Rightarrow> nat" where
  "argmin xs = (case xs of [] \<Rightarrow> 0 | x # rest \<Rightarrow> argmin_from x 0 1 rest)"

text \<open>
  The truth value of a one-dimensional NumPy array, as \<open>if not results['phase_shifts']\<close>
  asks for it: an empty array is false (NumPy 1.x, with a deprecation warning), an array of
  one element has the truth value of that element, and a longer array raises
  \<open>ValueError\<close> (``the truth value of an array with more than one element is ambiguous'').
\<close>

definition array_truth :: "real list \<Rightarrow> py_error + bool" where
  "array_truth xs =
     (case xs of
        [] \<Rightarrow> Inr False
      | [x] \<Rightarrow> Inr (x \<noteq> 0)
      | _ \<Rightarrow> Inl ValueError)"

section \<open>The calculator object and its result\<close>

text \<open>
  \<open>OptimizedPhaseCalculator.__init__\<close> (processing/data\_processor.py) sets the frequency band
  6 to 18 Hz, \<open>rfst_fmin = rfst_fmax = 25\<close>, an empty \<open>_cache\<close> dictionary and
  \<open>_c_extension\<close>, which is the module \<open>phase_shift_c\<close> when it can be imported and \<open>None\<close>
  otherwise. The object is a record; \<open>c_extension\<close> says whether the import succeeded.
\<close>

record calculator =
  min_freq :: real
  max_freq :: real
  rfst_fmin :: real
  rfst_fmax :: real
  cache :: "(string \<times> real) list"
  c_extension :: bool

definition init_calculator :: "bool \<Rightarrow> calculator" where
  "init_calculator have_c_extension =
     \<lparr>min_freq = 6, max_freq = 18, rfst_fmin = 25, rfst_fmax = 25,
      cache = [], c_extension = have_c_extension\<rparr>"

text \<open>
  The result is a dictionary: \<open>{'valid': False, 'error': msg}\<close> or
  \<open>{'valid': True, 'min_phase_shift': .., 'min_phase_freq': .., 'phase_shifts': ..,
  'frequencies': ..}\<close>.
\<close>

record phase_shift_result =
  min_phase_shift :: real
  min_phase_freq :: real
  phase_shifts :: "real list"
  frequencies :: "real list"

datatype phase_dict = Invalid string | Valid phase_shift_result

section \<open>The Python path\<close>

subsection \<open>Peak finding: \<open>_find_peaks_fast\<close>\<close>

text \<open>
  The inner loop over \<open>range(max(0, i-5), min(n, i+6))\<close>: \<open>local_max\<close> stays true unless
  some \<open>j \<noteq> i\<close> of the window has \<open>data[j] >= data[i]\<close>.
\<close>

definition local_max :: "real list \<Rightarrow> nat \<Rightarrow> bool" where
  "local_max data i =
     list_all (\<lambda>j. \<not> (j \<noteq> i \<and> data ! j \<ge> data ! i))
       [max 0 (i - 5) ..< min (length data) (i + 6)]"

text \<open>
  One iteration of \<open>for i in range(1, n - 1)\<close>. The indices are natural numbers:
  \<open>i - 1\<close> and \<open>i - last peaks\<close> never go below zero here, and \<open>i < n - 5\<close> is false for
  \<open>n \<le> 5\<close> in Python as it is with truncated subtraction.
\<close>

definition find_peaks_step :: "real list \<Rightarrow> nat \<Rightarrow> nat list \<Rightarrow> nat \<Rightarrow> nat list" where
  "find_peaks_step data min_distance peaks i =
     (if data ! i > data ! (i - 1) \<and> data ! i > data ! (i + 1) then
        (if peaks = [] \<or> i - last peaks \<ge> min_distance then
           (if i \<ge> 5 \<and> i < length data - 5 then
              (if local_max data i then peaks @ [i] else peaks)
            else peaks)
         else peaks)
      else peaks)"

definition find_peaks_fast :: "real list \<Rightarrow> nat \<Rightarrow> nat list" where
  "find_peaks_fast data min_distance =
     foldl (find_peaks_step data min_distance) [] [1 ..< length data - 1]"

subsection \<open>Crossings and phase of one cycle: \<open>_calculate_phase_fast\<close>\<close>

text \<open>
  One iteration of \<open>for i in range(1, n)\<close> over the cycle's force samples. The first branch
  is the one the source labels as the upward crossing, the second the downward one; both
  interpolate in the same way. The function is compiled by Numba in nopython mode, where
  a float division by zero raises \<open>ZeroDivisionError\<close>; it happens exactly when both samples
  equal the static weight.
\<close>

definition crossing_step ::
  "real list \<Rightarrow> real list \<Rightarrow> real \<Rightarrow> py_error + real list \<Rightarrow> nat \<Rightarrow> py_error + real list" where
  "crossing_step force_data time_data static_weight acc i =
     (case acc of
        Inl e \<Rightarrow> Inl e
      | Inr crossings \<Rightarrow>
          if force_data ! (i - 1) \<le> static_weight \<and> static_weight \<le> force_data ! i then
            (if force_data ! i - force_data ! (i - 1) = 0 then Inl ZeroDivisionError
             else if length time_data \<le> i then Inl IndexError
             else
               let frac = (static_weight - force_data ! (i - 1)) / (force_data ! i - force_data ! (i - 1));
                   cross_time = time_data ! (i - 1) + frac * (time_data ! i - time_data ! (i - 1))
               in Inr (crossings @ [cross_time]))
          else if force_data ! (i - 1) \<ge> static_weight \<and> static_weight \<ge> force_data ! i then
            (if force_data ! i - force_data ! (i - 1) = 0 then Inl ZeroDivisionError
             else if length time_data \<le> i then Inl IndexError
             else
               let frac = (static_weight - force_data ! (i - 1)) / (force_data ! i - force_data ! (i - 1));
                   cross_time = time_data ! (i - 1) + frac * (time_data ! i - time_data ! (i - 1))
               in Inr (crossings @ [cross_time]))
          else Inr crossings)"

definition find_crossings :: "real list \<Rightarrow> real list \<Rightarrow> real \<Rightarrow> py_error + real list" where
  "find_crossings force_data time_data static_weight =
     foldl (crossing_step force_data time_data static_weight) (Inr []) [1 ..< length force_data]"

text \<open>
  The rest of \<open>_calculate_phase_fast\<close>: the sentinel \<open>-1.0\<close> for fewer than two crossings,
  the reference time as the mean of the first two crossings, the phase relative to
  \<open>time_data[0]\<close>, and the normalisation into 0 to 180 degrees.
\<close>

definition calculate_phase_fast :: "real list \<Rightarrow> real list \<Rightarrow> real \<Rightarrow> py_error + real" where
  "calculate_phase_fast force_data time_data static_weight =
     (case find_crossings force_data time_data static_weight of
        Inl e \<Rightarrow> Inl e
      | Inr crossings \<Rightarrow>
          if length crossings < 2 then Inr (- 1)
          else
            let fref = (crossings ! 0 + crossings ! 1) / 2 in
            if time_data = [] then Inl IndexError
            else
              let cycle_duration = last time_data - hd time_data in
              if cycle_duration = 0 then Inl ZeroDivisionError
              else
                let phase_shift = ((fref - hd time_data) / cycle_duration) * 360;
                    phase_shift = py_mod phase_shift 360
                in Inr (if phase_shift > 180 then 360 - phase_shift else phase_shift))"

subsection \<open>The cycle loop: \<open>_analyze_cycles_vectorized\<close>\<close>

text \<open>
  One iteration of \<open>for i in range(1, len(peaks))\<close>. \<open>cycle_time[-1]\<close> raises \<open>IndexError\<close> on
  an empty slice. The frequency is a NumPy scalar division: for a duration of zero it is
  infinite, which fails the band test. \<open>_calculate_phase_fast\<close> returns a float in every
  case, so the test \<open>phase is not None\<close> is always true and is not a branch of the model.
  The platform samples are a parameter the loop never reads.
\<close>

definition analyze_cycle_step ::
  "calculator \<Rightarrow> real list \<Rightarrow> real list \<Rightarrow> real list \<Rightarrow> real \<Rightarrow> nat list \<Rightarrow>
   py_error + (real list \<times> real list) \<Rightarrow> nat \<Rightarrow> py_error + (real list \<times> real list)" where
  "analyze_cycle_step self platform_data force_data time_data static_weight peaks acc i =
     (case acc of
        Inl e \<Rightarrow> Inl e
      | Inr (phase_list, freq_list) \<Rightarrow>
          let start_idx = peaks ! (i - 1);
              end_idx = peaks ! i;
              cycle_time = slice time_data start_idx end_idx;
              cycle_force = slice force_data start_idx end_idx
          in
          if cycle_time = [] then Inl IndexError
          else if last cycle_time - hd cycle_time = 0 then Inr (phase_list, freq_list)
          else
            let freq = 1 / (last cycle_time - hd cycle_time) in
            if \<not> (min_freq self \<le> freq \<and> freq \<le> max_freq self) then Inr (phase_list, freq_list)
            else
              (case calculate_phase_fast cycle_force cycle_time static_weight of
                 Inl e \<Rightarrow> Inl e
               | Inr phase \<Rightarrow> Inr (phase_list @ [phase], freq_list @ [freq])))"

definition analyze_cycles_vectorized ::
  "calculator \<Rightarrow> real list \<Rightarrow> real list \<Rightarrow> real list \<Rightarrow> real \<Rightarrow> nat list \<Rightarrow>
   py_error + (real list \<times> real list)" where
  "analyze_cycles_vectorized self platform_data force_data time_data static_weight peaks =
     foldl (analyze_cycle_step self platform_data force_data time_data static_weight peaks)
       (Inr ([], [])) [1 ..< length peaks]"

subsection \<open>\<open>_calculate_optimized_python\<close>\<close>

definition msg_not_enough_peaks_py :: string where
  "msg_not_enough_peaks_py = ''Nicht genug Peaks gefunden''"

definition msg_no_valid_cycles_py :: string where
  "msg_no_valid_cycles_py = ''Keine g'' @ [CHR 0xFC] @ ''ltigen Zyklen''"

definition calculate_optimized_python ::
  "calculator \<Rightarrow> real list \<Rightarrow> real list \<Rightarrow> real list \<Rightarrow> real \<Rightarrow> py_error + phase_dict" where
  "calculate_optimized_python self platform_data force_data time_data static_weight =
     (let platform_peaks = find_peaks_fast platform_data 50 in
      if length platform_peaks < 2 then Inr (Invalid msg_not_enough_peaks_py)
      else
        (case analyze_cycles_vectorized self platform_data force_data time_data static_weight
                platform_peaks of
           Inl e \<Rightarrow> Inl e
         | Inr (phase_list, freq_list) \<Rightarrow>
             (case array_truth phase_list of
                Inl e \<Rightarrow> Inl e
              | Inr truth \<Rightarrow>
                  if \<not> truth then Inr (Invalid msg_no_valid_cycles_py)
                  else
                    let min_idx = argmin phase_list in
                    Inr (Valid \<lparr>min_phase_shift = phase_list ! min_idx,
                                min_phase_freq = freq_list ! min_idx,
                                phase_shifts = phase_list,
                                frequencies = freq_list\<rparr>))))"

section \<open>The C extension: \<open>phase_shift_c\<close>\<close>

text \<open>
  processing/ring\_buffer.py holds the source of the extension module. Its arrays are C
  \<open>double\<close> arrays: a division \<open>0.0 / 0.0\<close> gives a NaN, which every comparison answers with
  false. A value that can be a NaN is a \<open>real option\<close>, \<open>None\<close> being the NaN.

  The source does not build as it stands: \<open>calculate_phase_shift\<close> declares \<open>min_freq\<close> twice
  in one block, once as the band parameter and once as the frequency at the minimum. The
  functions below follow the text of the source, with the second variable kept apart.
\<close>

subsection \<open>\<open>find_peaks\<close>\<close>

text \<open>
  The window of the significance test runs from \<open>start = (i - 5 > 0) ? i - 5 : 0\<close> to
  \<open>end = (i + 5 < n) ? i + 5 : n\<close>, the end excluded.
\<close>

definition c_is_max :: "real list \<Rightarrow> nat \<Rightarrow> nat \<Rightarrow> bool" where
  "c_is_max data n i =
     list_all (\<lambda>j. \<not> (j \<noteq> i \<and> data ! j \<ge> data ! i))
       [(if i > 5 then i - 5 else 0) ..< (if i + 5 < n then i + 5 else n)]"

text \<open>
  One iteration of \<open>for (i = 1; i < n - 1 && peak_count < max_peaks; i++)\<close>. The peak count
  never shrinks, so leaving the loop when it reaches \<open>max_peaks\<close> is the same as doing
  nothing in the remaining iterations.
\<close>

definition c_find_peaks_step :: "real list \<Rightarrow> nat \<Rightarrow> nat \<Rightarrow> nat \<Rightarrow> nat list \<Rightarrow> nat \<Rightarrow> nat list" where
  "c_find_peaks_step data n max_peaks min_distance peaks i =
     (if \<not> (length peaks < max_peaks) then peaks
      else if data ! i > data ! (i - 1) \<and> data ! i > data ! (i + 1) then
        (if length peaks = 0 \<or> i - last peaks \<ge> min_distance then
           (if c_is_max data n i then peaks @ [i] else peaks)
         else peaks)
      else peaks)"

definition c_find_peaks :: "real list \<Rightarrow> nat \<Rightarrow> nat \<Rightarrow> nat \<Rightarrow> nat list" where
  "c_find_peaks data n max_peaks min_distance =
     foldl (c_find_peaks_step data n max_peaks min_distance) [] [1 ..< n - 1]"

subsection \<open>\<open>calculate_cycle_phase\<close>\<close>

text \<open>
  One iteration of \<open>for (i = start + 1; i < end && crossing_count < 100; i++)\<close>; the array
  \<open>crossings\<close> holds at most 100 entries.
\<close>

definition c_interpolate :: "real \<Rightarrow> real \<Rightarrow> real \<Rightarrow> real \<Rightarrow> real \<Rightarrow> real option" where
  "c_interpolate static_weight f0 f1 t0 t1 =
     (if f1 - f0 = 0 then None
      else let frac = (static_weight - f0) / (f1 - f0) in Some (t0 + frac * (t1 - t0)))"

definition c_crossing_step ::
  "real list \<Rightarrow> real list \<Rightarrow> real \<Rightarrow> real option list \<Rightarrow> nat \<Rightarrow> real option list" where
  "c_crossing_step force time_arr static_weight crossings i =
     (if \<not> (length crossings < 100) then crossings
      else
        let f0 = force ! (i - 1); f1 = force ! i in
        if f0 \<le> static_weight \<and> static_weight \<le> f1 then
          crossings @ [c_interpolate static_weight f0 f1 (time_arr ! (i - 1)) (time_arr ! i)]
        else if f0 \<ge> static_weight \<and> static_weight \<ge> f1 then
          crossings @ [c_interpolate static_weight f0 f1 (time_arr ! (i - 1)) (time_arr ! i)]
        else crossings)"

text \<open>
  The phase of one cycle. \<open>fmod\<close> keeps the sign of its argument, so the code adds 360 to a
  negative remainder. The result is \<open>None\<close> (a NaN) when one of the first two crossings is.
\<close>

definition c_calculate_cycle_phase ::
  "real list \<Rightarrow> real list \<Rightarrow> nat \<Rightarrow> nat \<Rightarrow> real \<Rightarrow> real option" where
  "c_calculate_cycle_phase force time_arr start_idx end_idx static_weight =
     (if int end_idx - int start_idx < 3 then Some (- 1)
      else
        let crossings = foldl (c_crossing_step force time_arr static_weight) []
                          [start_idx + 1 ..< end_idx] in
        if length crossings < 2 then Some (- 1)
        else
          (case (crossings ! 0, crossings ! 1) of
             (Some c0, Some c1) \<Rightarrow>
               let fref = (c0 + c1) / 2;
                   cycle_duration = time_arr ! (end_idx - 1) - time_arr ! start_idx
               in
               if cycle_duration = 0 then None
               else
                 let phase_shift = ((fref - time_arr ! start_idx) / cycle_duration) * 360;
                     phase_shift = c_fmod phase_shift 360;
                     phase_shift = (if phase_shift < 0 then phase_shift + 360 else phase_shift)
                 in Some (if phase_shift > 180 then 360 - phase_shift else phase_shift)
           | _ \<Rightarrow> None))"

subsection \<open>\<open>calculate_phase_shift\<close>\<close>

record cycle_data =
  start_idx :: nat
  end_idx :: nat
  frequency :: real
  phase_shift :: real
  valid :: bool

text \<open>
  One iteration of \<open>for (int i = 1; i < peak_count; i++)\<close>. A frequency that is infinite
  (duration zero) is greater than \<open>max_freq\<close> and skips the cycle; a NaN phase fails
  \<open>phase >= 0\<close>.
\<close>

definition c_cycle_step ::
  "real list \<Rightarrow> real list \<Rightarrow> real \<Rightarrow> real \<Rightarrow> real \<Rightarrow> nat list \<Rightarrow> cycle_data list \<Rightarrow> nat \<Rightarrow>
   cycle_data list" where
  "c_cycle_step force time_arr static_weight min_f max_f peaks cycles i =
     (let start = peaks ! (i - 1);
          end_i = peaks ! i
      in
      if time_arr ! (end_i - 1) - time_arr ! start = 0 then cycles
      else
        let freq = 1 / (time_arr ! (end_i - 1) - time_arr ! start) in
        if freq < min_f \<or> freq > max_f then cycles
        else
          (case c_calculate_cycle_phase force time_arr start end_i static_weight of
             None \<Rightarrow> cycles
           | Some phase \<Rightarrow>
               if phase \<ge> 0 then
                 cycles @ [\<lparr>start_idx = start, end_idx = end_i, frequency = freq,
                             phase_shift = phase, valid = True\<rparr>]
               else cycles))"

definition c_cycle_loop ::
  "real list \<Rightarrow> real list \<Rightarrow> real \<Rightarrow> real \<Rightarrow> real \<Rightarrow> nat list \<Rightarrow> cycle_data list" where
  "c_cycle_loop force time_arr static_weight min_f max_f peaks =
     foldl (c_cycle_step force time_arr static_weight min_f max_f peaks) [] [1 ..< length peaks]"

text \<open>
  The minimum search \<open>for (int i = 1; i < valid_cycles; i++)\<close> with its three variables
  \<open>min_phase\<close>, the frequency at the minimum and \<open>min_idx\<close>. (The source declares the second
  one under the name \<open>min_freq\<close>, which is also the name of the band parameter in the same
  scope; the model keeps the two apart.)
\<close>

definition c_min_step :: "cycle_data list \<Rightarrow> real \<times> real \<times> nat \<Rightarrow> nat \<Rightarrow> real \<times> real \<times> nat" where
  "c_min_step cycles acc i =
     (case acc of (min_phase, min_phase_f, min_idx) \<Rightarrow>
        if phase_shift (cycles ! i) < min_phase
        then (phase_shift (cycles ! i), frequency (cycles ! i), i)
        else (min_phase, min_phase_f, min_idx))"

definition c_min_search :: "cycle_data list \<Rightarrow> real \<times> real \<times> nat" where
  "c_min_search cycles =
     foldl (c_min_step cycles) (phase_shift (cycles ! 0), frequency (cycles ! 0), 0)
       [1 ..< length cycles]"

definition msg_not_enough_peaks_c :: string where
  "msg_not_enough_peaks_c = ''Not enough peaks found''"

definition msg_no_valid_cycles_c :: string where
  "msg_no_valid_cycles_c = ''No valid cycles found''"

text \<open>
  \<open>PyArg_ParseTuple(args, "O!O!O!dddd", ...)\<close>: the format string takes exactly seven
  arguments, three arrays and four doubles, and a call with any other number of arguments
  fails with \<open>TypeError\<close>. The four doubles fill \<open>static_weight\<close>, \<open>min_freq\<close>, \<open>max_freq\<close> and
  \<open>rfst_fmin\<close>; the fifth target, \<open>rfst_fmax\<close>, is never filled and never read. The doubles
  of a call are the list \<open>doubles\<close>.
\<close>

definition c_calculate_phase_shift ::
  "real list \<Rightarrow> real list \<Rightarrow> real list \<Rightarrow> real list \<Rightarrow> py_error + phase_dict" where
  "c_calculate_phase_shift platform force time_arr doubles =
     (case doubles of
        [static_weight, min_f, max_f, rfst_lo] \<Rightarrow>
          (let n = length platform in
           if length force \<noteq> n \<or> length time_arr \<noteq> n then Inl ValueError
           else
             let peaks = c_find_peaks platform n (n div 10) 50 in
             if length peaks < 2 then Inr (Invalid msg_not_enough_peaks_c)
             else
               let cycles = c_cycle_loop force time_arr static_weight min_f max_f peaks in
               if length cycles = 0 then Inr (Invalid msg_no_valid_cycles_c)
               else
                 (case c_min_search cycles of
                    (min_phase, min_phase_f, min_idx) \<Rightarrow>
                      Inr (Valid \<lparr>min_phase_shift = min_phase,
                                  min_phase_freq = min_phase_f,
                                  phase_shifts = map phase_shift cycles,
                                  frequencies = map frequency cycles\<rparr>)))
      | _ \<Rightarrow> Inl TypeError)"

section \<open>The entry point \<open>calculate\<close>\<close>

text \<open>
  \<open>_calculate_with_c_extension\<close> calls the extension function with eight arguments: the
  three arrays, \<open>static_weight\<close>, \<open>self.min_freq\<close>, \<open>self.max_freq\<close>, \<open>self.rfst_fmin\<close> and
  \<open>self.rfst_fmax\<close>.
\<close>

definition calculate_with_c_extension ::
  "calculator \<Rightarrow> real list \<Rightarrow> real list \<Rightarrow> real list \<Rightarrow> real \<Rightarrow> py_error + phase_dict" where
  "calculate_with_c_extension self platform_data force_data time_data static_weight =
     c_calculate_phase_shift platform_data force_data time_data
       [static_weight, min_freq self, max_freq self, rfst_fmin self, rfst_fmax self]"

text \<open>
  \<open>calculate\<close> returns its result together with the calculator object as the call leaves
  it, so that a second call can be made on the object the first call left behind.
\<close>

definition calculate ::
  "calculator \<Rightarrow> real list \<Rightarrow> real list \<Rightarrow> real list \<Rightarrow> real \<Rightarrow>
   (py_error + phase_dict) \<times> calculator" where
  "calculate self platform_data force_data time_data static_weight =
     (if c_extension self
      then (calculate_with_c_extension self platform_data force_data time_data static_weight, self)
      else (calculate_optimized_python self platform_data force_data time_data static_weight, self))"

section \<open>The documented EGEA formulas\<close>

subsection \<open>The true platform top and the phase relative to it\<close>

text \<open>
  \<open>calculate_advanced_phase_shift\<close> (common/suspension\_core/egea/README.md) takes the time
  of the platform top from \<open>np.argmax(cycle_platform)\<close>, ``not only the start of the
  cycle'', and computes the phase from it. \<open>np.argmax\<close> is the index of the first greatest
  element; \<open>np.degrees\<close> multiplies by \<open>180 / pi\<close>.
\<close>

fun argmax_from :: "real \<Rightarrow> nat \<Rightarrow> nat \<Rightarrow> real list \<Rightarrow> nat" where
  "argmax_from best best_idx i [] = best_idx"
| "argmax_from best best_idx i (x # xs) =
     (if x > best then argmax_from x i (Suc i) xs else argmax_from best best_idx (Suc i) xs)"

definition argmax :: "real list \<Rightarrow> nat" where
  "argmax xs = (case xs of [] \<Rightarrow> 0 | x # rest \<Rightarrow> argmax_from x 0 1 rest)"

definition top_p_time :: "real list \<Rightarrow> real list \<Rightarrow> real" where
  "top_p_time cycle_platform cycle_time =
     (let platform_peak_idx = argmax cycle_platform
      in cycle_time ! platform_peak_idx - cycle_time ! 0)"

definition advanced_phase_shift_deg :: "real \<Rightarrow> real \<Rightarrow> real \<Rightarrow> real" where
  "advanced_phase_shift_deg fref_relative top_p freq =
     (let phase_shift_rad = (fref_relative - top_p) * freq * 2 * pi;
          phase_shift_deg = phase_shift_rad * (180 / pi);
          phase_shift_deg = py_mod phase_shift_deg 360
      in if phase_shift_deg > 180 then 360 - phase_shift_deg else phase_shift_deg)"

subsection \<open>The validity band and the reference time from a down and an up crossing\<close>

text \<open>
  The technical documentation (the RFstF condition check of the phase shift calculation)
  accepts the crossings of a cycle only when the static weight lies strictly inside the
  band that \<open>rfst_fmin\<close> and \<open>rfst_fmax\<close> cut out of the cycle's force range.
\<close>

definition rfst_band_ok :: "calculator \<Rightarrow> real list \<Rightarrow> real \<Rightarrow> bool" where
  "rfst_band_ok self cycle_force static_weight =
     (let delta_f = Max (set cycle_force) - Min (set cycle_force);
          f_min_limit = Min (set cycle_force) + delta_f * rfst_fmin self / 100;
          f_max_limit = Max (set cycle_force) - delta_f * rfst_fmax self / 100
      in f_min_limit < static_weight \<and> static_weight < f_max_limit)"

text \<open>
  The crossings of \<open>_calculate_phase_fast\<close> with the direction its two branches stand for:
  \<open>True\<close> for the first branch (upward), \<open>False\<close> for the second (downward). The improved
  \<open>calculate_fref\<close> of the documentation takes the first downward and the first upward
  crossing.
\<close>

definition directed_crossings :: "real list \<Rightarrow> real list \<Rightarrow> real \<Rightarrow> (real \<times> bool) list" where
  "directed_crossings force_data time_data static_weight =
     concat (map (\<lambda>i.
        if force_data ! (i - 1) \<le> static_weight \<and> static_weight \<le> force_data ! i then
          let frac = (static_weight - force_data ! (i - 1)) / (force_data ! i - force_data ! (i - 1));
              cross_time = time_data ! (i - 1) + frac * (time_data ! i - time_data ! (i - 1))
          in [(cross_time, True)]
        else if force_data ! (i - 1) \<ge> static_weight \<and> static_weight \<ge> force_data ! i then
          let frac = (static_weight - force_data ! (i - 1)) / (force_data ! i - force_data ! (i - 1));
              cross_time = time_data ! (i - 1) + frac * (time_data ! i - time_data ! (i - 1))
          in [(cross_time, False)]
        else []) [1 ..< length force_data])"

definition calculate_fref :: "(real \<times> bool) list \<Rightarrow> real option" where
  "calculate_fref crossings =
     (let down_crossings = map fst (filter (\<lambda>c. \<not> snd c) crossings);
          up_crossings = map fst (filter snd crossings)
      in if down_crossings = [] \<or> up_crossings = [] then None
         else Some ((down_crossings ! 0 + up_crossings ! 0) / 2))"

subsection \<open>Relative force amplitude\<close>

text \<open>
  \<open>calculate_rfa_max\<close> (common/suspension\_core/egea/README.md). The flags come from
  \<open>detect_signal_overflow_underflow\<close>, whose source is not part of the repository files; it
  is the parameter \<open>detect\<close>. \<open>np.min\<close> of an empty array raises \<open>ValueError\<close>.
\<close>

definition calculate_rfa_max ::
  "(real list \<Rightarrow> real \<Rightarrow> bool \<times> bool) \<Rightarrow> real list \<Rightarrow> real \<Rightarrow>
   py_error + (real \<times> real \<times> bool \<times> bool)" where
  "calculate_rfa_max detect tire_force static_weight =
     (case detect tire_force static_weight of (f_under_flag, f_over_flag) \<Rightarrow>
        if tire_force = [] then Inl ValueError
        else
          let fmin = Min (set tire_force);
              fmax = Max (set tire_force);
              fa_max = (if \<not> f_under_flag \<and> \<not> f_over_flag then static_weight - fmin
                        else if f_under_flag \<and> \<not> f_over_flag then fmax - static_weight
                        else max (fmax - static_weight) (static_weight - fmin));
              rfa_max = (if static_weight > 0 then (fa_max / static_weight) * 100 else 0)
          in Inr (rfa_max, fa_max, f_under_flag, f_over_flag))"

subsection \<open>Axle imbalance\<close>

text \<open>\<open>_calculate_difference_percent\<close> of the technical documentation.\<close>

definition calculate_difference_percent :: "real \<Rightarrow> real \<Rightarrow> real" where
  "calculate_difference_percent val1 val2 =
     (if val1 = 0 \<and> val2 = 0 then 0
      else
        let max_val = max \<bar>val1\<bar> \<bar>val2\<bar> in
        if max_val = 0 then 0
        else \<bar>val1 - val2\<bar> / max_val * 100)"

section \<open>Measurement records used in the evaluations\<close>

text \<open>
  A record of 66 samples taken every 1/540 s. The platform has accepted peaks at the
  samples 5 and 60 and a higher top at sample 30 (too close to the first peak to be
  accepted as a peak of its own). The one cycle is the slice from 5 to 60, 0.1 s long: 10 Hz.
\<close>

definition ex_time :: "real list" where
  "ex_time = map (\<lambda>i. real i / 540) [0 ..< 66]"

definition ex_platform :: "real list" where
  "ex_platform = map (\<lambda>i. if i = 5 \<or> i = 60 then 1 else if i = 30 then 2 else 0) [0 ..< 66]"

text \<open>A square force around 650 N: rising between samples 19 and 20, falling between 39 and 40.\<close>

definition ex_force_square :: "real list" where
  "ex_force_square = map (\<lambda>i. if 20 \<le> i \<and> i < 40 then 660 else 640) [0 ..< 66]"

text \<open>A force that stays above the static weight of 650 N: no crossing at all.\<close>

definition ex_force_above :: "real list" where
  "ex_force_above = map (\<lambda>i. 700) [0 ..< 66]"

text \<open>A force that stays below the static weight of 650 N.\<close>

definition ex_force_below :: "real list" where
  "ex_force_below = map (\<lambda>i. if even i then 600 else 610) [0 ..< 66]"

text \<open>
  A force between 640 N and 690 N: the static weight of 650 N lies in the lowest fifth of
  the force range, outside the band from 652.5 N to 677.5 N.
\<close>

definition ex_force_low_band :: "real list" where
  "ex_force_low_band = map (\<lambda>i. if 20 \<le> i \<and> i < 40 then 690 else 640) [0 ..< 66]"

text \<open>
  A force that rises through 650 N exactly at sample 20 and falls between samples 39
  and 40.
\<close>

definition ex_force_touch :: "real list" where
  "ex_force_touch =
     map (\<lambda>i. if i = 20 then 650 else if 20 < i \<and> i < 40 then 660 else 640) [0 ..< 66]"

section \<open>Arithmetic and array lemmas\<close>

lemma py_mod_range:
  assumes "0 < m"
  shows "0 \<le> py_mod x m" and "py_mod x m < m"
proof -
  have "of_int \<lfloor>x / m\<rfloor> * m \<le> x"
    using assms by (rule floor_divide_lower)
  then show "0 \<le> py_mod x m"
    by (simp add: py_mod_def mult.commute)
  have "x < (of_int \<lfloor>x / m\<rfloor> + 1) * m"
    using assms by (rule floor_divide_upper)
  then show "py_mod x m < m"
    by (simp add: py_mod_def algebra_simps)
qed

lemma c_fmod_adjusted:
  assumes "0 < m"
  shows "(if c_fmod x m < 0 then c_fmod x m + m else c_fmod x m) = py_mod x m"
proof (cases "0 \<le> x / m")
  case True
  then have "c_fmod x m = py_mod x m"
    by (simp add: c_fmod_def py_mod_def c_trunc_def)
  then show ?thesis
    using py_mod_range(1) [OF assms, of x] by simp
next
  case False
  show ?thesis
  proof (cases "x / m = of_int \<lfloor>x / m\<rfloor>")
    case True
    then have "\<lceil>x / m\<rceil> = \<lfloor>x / m\<rfloor>"
      by (simp add: ceiling_altdef)
    then have "c_fmod x m = py_mod x m"
      using False by (simp add: c_fmod_def py_mod_def c_trunc_def)
    then show ?thesis
      using py_mod_range(1) [OF assms, of x] by simp
  next
    case nonint: False
    then have "\<lceil>x / m\<rceil> = \<lfloor>x / m\<rfloor> + 1"
      by (simp add: ceiling_altdef)
    then have "c_fmod x m = py_mod x m - m"
      using False by (simp add: c_fmod_def py_mod_def c_trunc_def algebra_simps)
    then show ?thesis
      using py_mod_range(2) [OF assms, of x] by simp
  qed
qed

lemma slice_length: "end_i \<le> length xs \<Longrightarrow> length (slice xs start end_i) = end_i - start"
  by (simp add: slice_def)

lemma slice_nth:
  "start + i < end_i \<Longrightarrow> end_i \<le> length xs \<Longrightarrow> slice xs start end_i ! i = xs ! (start + i)"
  by (simp add: slice_def)

lemma slice_hd:
  "start < end_i \<Longrightarrow> end_i \<le> length xs \<Longrightarrow> hd (slice xs start end_i) = xs ! start"
  by (simp add: slice_def hd_drop_conv_nth)

lemma slice_last:
  "start < end_i \<Longrightarrow> end_i \<le> length xs \<Longrightarrow> last (slice xs start end_i) = xs ! (end_i - 1)"
  by (simp add: slice_def last_drop last_conv_nth)

lemma slice_nonempty:
  "start < end_i \<Longrightarrow> end_i \<le> length xs \<Longrightarrow> slice xs start end_i \<noteq> []"
  by (simp add: slice_def)

lemma map_add_upt_shift: "map (\<lambda>i. i + s) [a ..< b] = [a + s ..< b + s]"
  by (induction b) simp_all

section \<open>The crossings of a cycle\<close>

text \<open>
  The condition under which \<open>_calculate_phase_fast\<close> records a crossing between the samples
  \<open>i - 1\<close> and \<open>i\<close>, and the crossing time the specification gives for it.
\<close>

lemma crossing_step_regular:
  assumes "i < length t" and "\<not> (f ! i = sw \<and> f ! (i - 1) = sw)"
  shows "crossing_step f t sw (Inr acc) i =
           Inr (if (f ! (i - 1) \<le> sw \<and> sw \<le> f ! i) \<or> (f ! (i - 1) \<ge> sw \<and> sw \<ge> f ! i)
                then acc @ [t ! (i - 1) + (sw - f ! (i - 1)) / (f ! i - f ! (i - 1)) * (t ! i - t ! (i - 1))]
                else acc)"
  using assms by (auto simp add: crossing_step_def Let_def)

lemma foldl_crossing_step_regular:
  assumes "\<forall>i \<in> set idxs. i < length t \<and> \<not> (f ! i = sw \<and> f ! (i - 1) = sw)"
  shows "foldl (crossing_step f t sw) (Inr acc) idxs =
           Inr (acc @ map (\<lambda>i. t ! (i - 1) + (sw - f ! (i - 1)) / (f ! i - f ! (i - 1)) * (t ! i - t ! (i - 1)))
                        (filter (\<lambda>i. (f ! (i - 1) \<le> sw \<and> sw \<le> f ! i) \<or> (f ! (i - 1) \<ge> sw \<and> sw \<ge> f ! i))
                           idxs))"
  using assms
proof (induction idxs arbitrary: acc)
  case Nil
  then show ?case by simp
next
  case (Cons i idxs)
  then show ?case by (simp add: crossing_step_regular)
qed

text \<open>
  Claim C7. Between every two neighbouring samples of which one is not above and the other
  not below the static weight, the code records the crossing time
  \<open>t[i-1] + (static_weight - f[i-1]) / (f[i] - f[i-1]) * (t[i] - t[i-1])\<close>, in the order of
  the samples, and it records nothing else. This holds for every force array that has a
  time stamp for each sample and no two neighbouring samples that both equal the static
  weight (there the interpolation divides zero by zero and the loop raises).
\<close>

theorem crossing_times:
  assumes "length force_data \<le> length time_data"
    and "\<forall>i. 1 \<le> i \<and> i < length force_data \<longrightarrow>
             \<not> (force_data ! i = static_weight \<and> force_data ! (i - 1) = static_weight)"
  shows "find_crossings force_data time_data static_weight =
           Inr (map (\<lambda>i. time_data ! (i - 1) +
                          (static_weight - force_data ! (i - 1)) / (force_data ! i - force_data ! (i - 1)) *
                          (time_data ! i - time_data ! (i - 1)))
                  (filter (\<lambda>i. (force_data ! (i - 1) \<le> static_weight \<and> static_weight \<le> force_data ! i) \<or>
                               (force_data ! (i - 1) \<ge> static_weight \<and> static_weight \<ge> force_data ! i))
                     [1 ..< length force_data]))"
proof -
  have "\<forall>i \<in> set [1 ..< length force_data].
          i < length time_data \<and> \<not> (force_data ! i = static_weight \<and> force_data ! (i - 1) = static_weight)"
    using assms by auto
  from foldl_crossing_step_regular [OF this, of "[]"]
  show ?thesis
    unfolding find_crossings_def by simp
qed

text \<open>
  The example of the specification: force samples 640 and 660 at the times 0.000 and 0.010
  with a static weight of 650 cross at 0.005.
\<close>

theorem crossing_times_witness:
  "find_crossings [640, 660] [0, 0.010] 650 = Inr [0.005]"
  using crossing_times [of "[640, 660]" "[0, 0.010]" 650]
  by (simp add: upt_rec nth_Cons')

section \<open>Relative force amplitude\<close>

text \<open>
  Claim C5. For a non-empty force array and a positive static weight, \<open>FAmax\<close> is
  \<open>static_weight - min(force)\<close> when neither flag is set, \<open>max(force) - static_weight\<close> when
  only the underflow flag is set, and the greater of the two when the overflow flag is set;
  \<open>RFAmax\<close> is \<open>FAmax / static_weight * 100\<close> in every case. The flags are returned as
  detected.
\<close>

theorem rfa_max_branches:
  assumes "tire_force \<noteq> []" and "static_weight > 0"
    and "detect tire_force static_weight = (under_flag, over_flag)"
  shows "\<exists>fa_max.
           calculate_rfa_max detect tire_force static_weight =
             Inr (fa_max / static_weight * 100, fa_max, under_flag, over_flag) \<and>
           (\<not> under_flag \<and> \<not> over_flag \<longrightarrow> fa_max = static_weight - Min (set tire_force)) \<and>
           (under_flag \<and> \<not> over_flag \<longrightarrow> fa_max = Max (set tire_force) - static_weight) \<and>
           (over_flag \<longrightarrow> fa_max = max (Max (set tire_force) - static_weight)
                                      (static_weight - Min (set tire_force)))"
  using assms by (auto simp add: calculate_rfa_max_def Let_def)

theorem rfa_max_witness:
  "calculate_rfa_max (\<lambda>f w. (True, False)) [600, 730] 650 = Inr (160 / 13, 80, True, False)"
  using rfa_max_branches [of "[600, 730]" 650 "\<lambda>f w. (True, False)" True False]
  by auto

section \<open>Axle imbalance\<close>

text \<open>
  The formula \<open>|val_l - val_r| / max(val_l, val_r) * 100\<close> is not what the code computes for
  every pair of values: the code divides by the greater absolute value. A relative force
  amplitude of -10 percent (a force that stays above the static weight, no flag set)
  against one of 5 percent gives 150, where the formula gives 300.
\<close>

theorem difference_percent_counterexample:
  "calculate_difference_percent (- 10) 5 \<noteq> \<bar>(- 10) - 5\<bar> / max (- 10) 5 * 100"
  by (simp add: calculate_difference_percent_def)

text \<open>
  Claim C8, amended. The imbalance of two values is 0 when both are 0 and
  \<open>|val_l - val_r| / max(|val_l|, |val_r|) * 100\<close> otherwise; for values that are not
  negative and not both zero this is \<open>|val_l - val_r| / max(val_l, val_r) * 100\<close>.
\<close>

theorem difference_percent_formula:
  "calculate_difference_percent val_l val_r =
     (if val_l = 0 \<and> val_r = 0 then 0 else \<bar>val_l - val_r\<bar> / max \<bar>val_l\<bar> \<bar>val_r\<bar> * 100)
   \<and> (0 \<le> val_l \<and> 0 \<le> val_r \<and> 0 < max val_l val_r \<longrightarrow>
        calculate_difference_percent val_l val_r = \<bar>val_l - val_r\<bar> / max val_l val_r * 100)"
  by (auto simp add: calculate_difference_percent_def Let_def max_def)

text \<open>
  A left minimum phase of 45 degrees and a right one of 35 degrees differ by 200/9 percent
  (22.22 percent), which is within a limit of 30 percent.
\<close>

theorem difference_percent_witness:
  "calculate_difference_percent 45 35 = 200 / 9 \<and> calculate_difference_percent 45 35 \<le> 30"
  using difference_percent_formula [of 45 35] by simp

section \<open>Too few platform peaks\<close>

text \<open>
  Claim C6. When \<open>_find_peaks_fast\<close> accepts fewer than two platform peaks, the Python path
  returns the invalid result that names the lack of peaks: no exception is raised (the
  result is a value, so the caller goes on with the other wheel) and no phase is computed.
  \<open>calculate\<close> returns that result for every calculator that has no extension module.
\<close>

theorem insufficient_peaks:
  assumes "length (find_peaks_fast platform_data 50) < 2"
  shows "calculate_optimized_python self platform_data force_data time_data static_weight =
           Inr (Invalid ''Nicht genug Peaks gefunden'')
         \<and> (\<not> c_extension self \<longrightarrow>
              fst (calculate self platform_data force_data time_data static_weight) =
                Inr (Invalid ''Nicht genug Peaks gefunden''))"
  using assms
  by (simp add: calculate_def calculate_optimized_python_def msg_not_enough_peaks_py_def Let_def)

text \<open>A platform record with a single accepted peak.\<close>

theorem insufficient_peaks_witness:
  "calculate_optimized_python (init_calculator False)
      [0, 0, 0, 0, 0, 1, 0, 0, 0, 0, 0, 0] [640, 660, 640, 660, 640, 660, 640, 660, 640, 660, 640, 660]
      [0, 1, 2, 3, 4, 5, 6, 7, 8, 9, 10, 11] 650 =
     Inr (Invalid ''Nicht genug Peaks gefunden'')
   \<and> fst (calculate (init_calculator False)
      [0, 0, 0, 0, 0, 1, 0, 0, 0, 0, 0, 0] [640, 660, 640, 660, 640, 660, 640, 660, 640, 660, 640, 660]
      [0, 1, 2, 3, 4, 5, 6, 7, 8, 9, 10, 11] 650) =
     Inr (Invalid ''Nicht genug Peaks gefunden'')"
proof -
  let ?p = "[0, 0, 0, 0, 0, 1, 0, 0, 0, 0, 0, 0] :: real list"
  have py: "length (find_peaks_fast ?p 50) < 2"
    by code_simp
  show ?thesis
    using insufficient_peaks [OF py, of "init_calculator False"
        "[640, 660, 640, 660, 640, 660, 640, 660, 640, 660, 640, 660]"
        "[0, 1, 2, 3, 4, 5, 6, 7, 8, 9, 10, 11]" 650]
    by (simp add: init_calculator_def)
qed

section \<open>The two paths of \<open>calculate\<close>\<close>

subsection \<open>The cycle functions of the two sources\<close>

text \<open>
  Taken by themselves, the cycle functions of the C source compute what the cycle
  functions of the Python source compute.
\<close>

lemma foldl_crossing_step_Inl:
  "foldl (crossing_step force_data time_data static_weight) (Inl e) idxs = Inl e"
  by (induction idxs) (simp_all add: crossing_step_def)

text \<open>A step of the Python loop on the slices is the same step on the whole arrays.\<close>

lemma crossing_step_slice:
  assumes "1 \<le> i" and "s + i < e" and "e \<le> length force" and "e \<le> length time_arr"
  shows "crossing_step (slice force s e) (slice time_arr s e) sw acc i =
         crossing_step force time_arr sw acc (i + s)"
proof -
  have f0: "slice force s e ! (i - 1) = force ! (i + s - 1)"
    using assms(1-3) by (simp add: slice_nth add.commute)
  have f1: "slice force s e ! i = force ! (i + s)"
    using assms(2,3) by (simp add: slice_nth add.commute)
  have t0: "slice time_arr s e ! (i - 1) = time_arr ! (i + s - 1)"
    using assms(1,2,4) by (simp add: slice_nth add.commute)
  have t1: "slice time_arr s e ! i = time_arr ! (i + s)"
    using assms(2,4) by (simp add: slice_nth add.commute)
  have len: "(length (slice time_arr s e) \<le> i) = (length time_arr \<le> i + s)"
    using assms(2,4) by (simp add: slice_length)
  show ?thesis
    unfolding crossing_step_def f0 f1 t0 t1 len ..
qed

lemma crossing_step_grows:
  assumes "crossing_step force time_arr sw (Inr a) j = Inr a'"
  shows "a' = a \<or> (\<exists>v. a' = a @ [v])"
  using assms by (auto simp add: crossing_step_def Let_def split: if_splits)

text \<open>The C step, on the first 100 crossings, follows the Python step.\<close>

lemma c_crossing_step_follows:
  assumes "crossing_step force time_arr sw (Inr a) j = Inr a'"
  shows "c_crossing_step force time_arr sw (take 100 (map Some a)) j = take 100 (map Some a')"
proof (cases "length a < 100")
  case True
  then have tk: "take 100 (map Some a) = map Some a" by simp
  have "c_crossing_step force time_arr sw (map Some a) j = map Some a'"
    using assms True
    by (auto simp add: crossing_step_def c_crossing_step_def c_interpolate_def Let_def
        split: if_splits)
  moreover have "length a' \<le> 100"
    using crossing_step_grows [OF assms] True by auto
  ultimately show ?thesis
    unfolding tk by simp
next
  case False
  then have "take 100 (map Some a') = take 100 (map Some a)"
    using crossing_step_grows [OF assms] by auto
  then show ?thesis
    using False by (simp add: c_crossing_step_def)
qed

lemma c_crossings_follow:
  assumes "foldl (crossing_step force time_arr sw) (Inr a) idxs = Inr cs"
  shows "foldl (c_crossing_step force time_arr sw) (take 100 (map Some a)) idxs =
         take 100 (map Some cs)"
  using assms
proof (induction idxs arbitrary: a)
  case Nil
  then show ?case by simp
next
  case (Cons j idxs)
  show ?case
  proof (cases "crossing_step force time_arr sw (Inr a) j")
    case (Inl err)
    with Cons.prems show ?thesis
      by (simp add: foldl_crossing_step_Inl)
  next
    case (Inr a')
    with Cons.prems have "foldl (crossing_step force time_arr sw) (Inr a') idxs = Inr cs"
      by simp
    from Cons.IH [OF this] c_crossing_step_follows [OF Inr] show ?thesis
      by simp
  qed
qed

lemma foldl_crossing_slice:
  assumes "e \<le> length force" and "e \<le> length time_arr"
    and "\<forall>i \<in> set idxs. 1 \<le> i \<and> s + i < e"
  shows "foldl (crossing_step (slice force s e) (slice time_arr s e) sw) acc idxs =
         foldl (crossing_step force time_arr sw) acc (map (\<lambda>i. i + s) idxs)"
  using assms(3)
proof (induction idxs arbitrary: acc)
  case Nil
  then show ?case by simp
next
  case (Cons i idxs)
  then show ?case
    using assms(1,2) by (simp add: crossing_step_slice)
qed

text \<open>The crossings of a cycle, as both sources collect them.\<close>

lemma find_crossings_slice:
  assumes "s < e" and "e \<le> length force" and "e \<le> length time_arr"
    and "find_crossings (slice force s e) (slice time_arr s e) sw = Inr cs"
  shows "foldl (c_crossing_step force time_arr sw) [] [s + 1 ..< e] = take 100 (map Some cs)"
proof -
  have idx: "\<forall>i \<in> set [1 ..< e - s]. 1 \<le> i \<and> s + i < e"
    by auto
  have shift: "map (\<lambda>i. i + s) [1 ..< e - s] = [s + 1 ..< e]"
    using assms(1) by (simp add: map_add_upt_shift add.commute)
  have "find_crossings (slice force s e) (slice time_arr s e) sw =
        foldl (crossing_step (slice force s e) (slice time_arr s e) sw) (Inr []) [1 ..< e - s]"
    unfolding find_crossings_def slice_length [OF assms(2)] ..
  also have "\<dots> = foldl (crossing_step force time_arr sw) (Inr []) (map (\<lambda>i. i + s) [1 ..< e - s])"
    by (rule foldl_crossing_slice [OF assms(2,3) idx])
  also have "\<dots> = foldl (crossing_step force time_arr sw) (Inr []) [s + 1 ..< e]"
    unfolding shift ..
  finally have "foldl (crossing_step force time_arr sw) (Inr []) [s + 1 ..< e] = Inr cs"
    using assms(4) by simp
  from c_crossings_follow [OF this] show ?thesis
    by simp
qed

text \<open>The phase of one cycle: the C function returns what the Python function returns.\<close>

lemma cycle_phase_agrees:
  assumes "s + 3 \<le> e" and "e \<le> length force" and "e \<le> length time_arr"
    and "calculate_phase_fast (slice force s e) (slice time_arr s e) sw = Inr p"
  shows "c_calculate_cycle_phase force time_arr s e sw = Some p"
proof -
  have se: "s < e" using assms(1) by simp
  obtain cs where cs: "find_crossings (slice force s e) (slice time_arr s e) sw = Inr cs"
    using assms(4) by (cases "find_crossings (slice force s e) (slice time_arr s e) sw")
      (simp_all add: calculate_phase_fast_def)
  have cc: "foldl (c_crossing_step force time_arr sw) [] [s + 1 ..< e] = take 100 (map Some cs)"
    by (rule find_crossings_slice [OF se assms(2,3) cs])
  have n3: "\<not> int e - int s < 3" using assms(1) by simp
  show ?thesis
  proof (cases "length cs < 2")
    case True
    with assms(4) show ?thesis
      unfolding calculate_phase_fast_def c_calculate_cycle_phase_def cs cc
      by (simp add: n3)
  next
    case False
    then have l0: "0 < length cs" and l1: "1 < length cs"
      by linarith+
    have c0: "take 100 (map Some cs) ! 0 = Some (cs ! 0)"
      using l0 by (simp add: nth_map)
    have c1: "take 100 (map Some cs) ! 1 = Some (cs ! 1)"
      using l1 by (simp add: nth_map)
    have len: "\<not> length (take 100 (map Some cs)) < 2"
      using False by simp
    have hd_t: "hd (slice time_arr s e) = time_arr ! s"
      and last_t: "last (slice time_arr s e) = time_arr ! (e - 1)"
      and ne: "slice time_arr s e \<noteq> []"
      using se assms(3) by (simp_all add: slice_hd slice_last slice_nonempty)
    have norm: "\<And>x. (if c_fmod x 360 < 0 then c_fmod x 360 + 360 else c_fmod x 360) = py_mod x 360"
      using c_fmod_adjusted [of 360] by simp
    from assms(4) show ?thesis
      unfolding calculate_phase_fast_def c_calculate_cycle_phase_def cs cc
      using False
      by (auto simp add: c0 c1 n3 hd_t last_t ne Let_def norm split: if_splits)
  qed
qed

lemma foldl_analyze_cycle_step_Inl:
  "foldl (analyze_cycle_step self platform force time_arr sw ps) (Inl err) ks = Inl err"
  by (induction ks) (simp_all add: analyze_cycle_step_def)

lemma cycle_step_agrees:
  assumes gap: "ps ! (k - 1) + 3 \<le> ps ! k"
    and lf: "ps ! k \<le> length force" and lt: "ps ! k \<le> length time_arr"
    and py: "analyze_cycle_step self platform force time_arr sw ps (Inr (phs, frs)) k = Inr (phs', frs')"
  shows "(phs' = phs \<and> frs' = frs \<and>
          c_cycle_step force time_arr sw (min_freq self) (max_freq self) ps cycles k = cycles)
       \<or> (\<exists>p f. phs' = phs @ [p] \<and> frs' = frs @ [f] \<and>
            c_cycle_step force time_arr sw (min_freq self) (max_freq self) ps cycles k =
              (if 0 \<le> p
               then cycles @ [\<lparr>start_idx = ps ! (k - 1), end_idx = ps ! k, frequency = f,
                                 phase_shift = p, valid = True\<rparr>]
               else cycles))"
proof -
  define s where "s = ps ! (k - 1)"
  define e where "e = ps ! k"
  have se: "s < e" and se3: "s + 3 \<le> e" and ef: "e \<le> length force" and et: "e \<le> length time_arr"
    using gap lf lt by (simp_all add: s_def e_def)
  have hd_t: "hd (slice time_arr s e) = time_arr ! s"
    and last_t: "last (slice time_arr s e) = time_arr ! (e - 1)"
    and ne: "slice time_arr s e \<noteq> []"
    using se et by (simp_all add: slice_hd slice_last slice_nonempty)
  note py' = py [unfolded analyze_cycle_step_def, folded s_def e_def]
  show ?thesis
  proof (cases "calculate_phase_fast (slice force s e) (slice time_arr s e) sw")
    case (Inl err)
    with py' show ?thesis
      unfolding c_cycle_step_def s_def [symmetric] e_def [symmetric]
      by (auto simp add: Let_def hd_t last_t ne split: if_splits)
  next
    case (Inr p)
    have c: "c_calculate_cycle_phase force time_arr s e sw = Some p"
      by (rule cycle_phase_agrees [OF se3 ef et Inr])
    from py' show ?thesis
      unfolding c_cycle_step_def s_def [symmetric] e_def [symmetric]
      by (auto simp add: Let_def hd_t last_t ne Inr c split: if_splits)
  qed
qed

lemma cycle_loop_agrees:
  assumes "\<forall>k \<in> set ks. ps ! (k - 1) + 3 \<le> ps ! k \<and> ps ! k \<le> length force \<and> ps ! k \<le> length time_arr"
    and "length phs = length frs"
    and "map (\<lambda>c. (phase_shift c, frequency c)) cycles = filter (\<lambda>(p, f). 0 \<le> p) (zip phs frs)"
    and "foldl (analyze_cycle_step self platform force time_arr sw ps) (Inr (phs, frs)) ks = Inr (phs', frs')"
  shows "length phs' = length frs' \<and>
         map (\<lambda>c. (phase_shift c, frequency c))
           (foldl (c_cycle_step force time_arr sw (min_freq self) (max_freq self) ps) cycles ks) =
         filter (\<lambda>(p, f). 0 \<le> p) (zip phs' frs')"
  using assms
proof (induction ks arbitrary: phs frs cycles)
  case Nil
  then show ?case by simp
next
  case (Cons k ks)
  let ?py = "analyze_cycle_step self platform force time_arr sw ps"
  let ?c = "c_cycle_step force time_arr sw (min_freq self) (max_freq self) ps"
  show ?case
  proof (cases "?py (Inr (phs, frs)) k")
    case (Inl err)
    with Cons.prems(4) show ?thesis
      by (simp add: foldl_analyze_cycle_step_Inl)
  next
    case (Inr acc)
    obtain phs1 frs1 where acc: "acc = (phs1, frs1)" by (cases acc)
    have step: "?py (Inr (phs, frs)) k = Inr (phs1, frs1)"
      using Inr acc by simp
    have rest: "foldl ?py (Inr (phs1, frs1)) ks = Inr (phs', frs')"
      using Cons.prems(4) step by simp
    have good: "ps ! (k - 1) + 3 \<le> ps ! k" "ps ! k \<le> length force" "ps ! k \<le> length time_arr"
      and goods: "\<forall>k \<in> set ks. ps ! (k - 1) + 3 \<le> ps ! k \<and> ps ! k \<le> length force \<and> ps ! k \<le> length time_arr"
      using Cons.prems(1) by simp_all
    from cycle_step_agrees [OF good step, of cycles]
    have "length phs1 = length frs1 \<and>
          map (\<lambda>c. (phase_shift c, frequency c)) (?c cycles k) =
          filter (\<lambda>(p, f). 0 \<le> p) (zip phs1 frs1)"
      using Cons.prems(2,3) by auto
    then have "length phs' = length frs' \<and>
         map (\<lambda>c. (phase_shift c, frequency c)) (foldl ?c (?c cycles k) ks) =
         filter (\<lambda>(p, f). 0 \<le> p) (zip phs' frs')"
      using Cons.IH [OF goods _ _ rest] by blast
    then show ?thesis by simp
  qed
qed

text \<open>Peaks accepted by the Python peak finder.\<close>

lemma foldl_invariant:
  assumes "P a" and "\<And>a x. P a \<Longrightarrow> x \<in> set xs \<Longrightarrow> P (f a x)"
  shows "P (foldl f a xs)"
  using assms by (induction xs arbitrary: a) simp_all

lemma sorted_gap_le_last:
  assumes "sorted_wrt (\<lambda>a b. a + d \<le> b) peaks" and "x \<in> set peaks"
  shows "(x::nat) \<le> last peaks"
  using assms
proof (induction peaks)
  case Nil
  then show ?case by simp
next
  case (Cons a peaks)
  show ?case
  proof (cases "peaks = []")
    case True
    with Cons.prems show ?thesis by simp
  next
    case False
    then have "last peaks \<in> set peaks" by simp
    then have "a \<le> last peaks"
      using Cons.prems(1) by fastforce
    with Cons False show ?thesis by auto
  qed
qed

lemma find_peaks_fast_invariant:
  "sorted_wrt (\<lambda>a b. a + 50 \<le> b) (find_peaks_fast data 50) \<and>
   (\<forall>p \<in> set (find_peaks_fast data 50). p < length data - 5)"
  unfolding find_peaks_fast_def
proof (rule foldl_invariant)
  show "sorted_wrt (\<lambda>a b. a + 50 \<le> b) [] \<and> (\<forall>p \<in> set []. p < length data - 5)"
    by simp
next
  fix peaks :: "nat list" and i
  assume inv: "sorted_wrt (\<lambda>a b. a + 50 \<le> b) peaks \<and> (\<forall>p \<in> set peaks. p < length data - 5)"
  have "\<forall>x \<in> set peaks. x + 50 \<le> i" if "50 \<le> i - last peaks"
  proof
    fix x assume "x \<in> set peaks"
    then have "x \<le> last peaks"
      using inv sorted_gap_le_last by blast
    with that show "x + 50 \<le> i" by simp
  qed
  then show "sorted_wrt (\<lambda>a b. a + 50 \<le> b) (find_peaks_step data 50 peaks i) \<and>
        (\<forall>p \<in> set (find_peaks_step data 50 peaks i). p < length data - 5)"
    using inv by (auto simp add: find_peaks_step_def sorted_wrt_append)
qed

lemma find_peaks_fast_cycles:
  assumes "k \<in> set [1 ..< length (find_peaks_fast data 50)]"
  shows "find_peaks_fast data 50 ! (k - 1) + 3 \<le> find_peaks_fast data 50 ! k \<and>
         find_peaks_fast data 50 ! k \<le> length data"
proof -
  let ?ps = "find_peaks_fast data 50"
  have k: "k - 1 < k" "k < length ?ps" using assms by simp_all
  have "?ps ! (k - 1) + 50 \<le> ?ps ! k"
    using find_peaks_fast_invariant [of data] k
    by (simp add: sorted_wrt_iff_nth_less)
  moreover have "?ps ! k < length data - 5"
    using find_peaks_fast_invariant [of data] k(2) by simp
  ultimately show ?thesis by simp
qed

subsection \<open>The call of the extension\<close>

text \<open>
  The call passes five doubles where the format string takes four, so the extension path
  raises \<open>TypeError\<close> in the argument parse, for every input and before any sample is read.
\<close>

lemma c_extension_call_raises:
  "calculate_with_c_extension self platform_data force_data time_data static_weight = Inl TypeError"
  by (simp add: calculate_with_c_extension_def c_calculate_phase_shift_def)

text \<open>
  Claim C10 at a concrete record. For the same calculator parameters and the same record
  the extension path ends in \<open>TypeError\<close>, while the Python path returns a valid result
  with a minimum phase of 490/3 degrees at 10 Hz: the two paths of \<open>calculate\<close> do not
  return equal results.
\<close>

theorem extension_path_raises:
  "calculate_with_c_extension (init_calculator True) ex_platform ex_force_square ex_time 650 =
     Inl TypeError
   \<and> calculate_optimized_python (init_calculator True) ex_platform ex_force_square ex_time 650 =
     Inr (Valid \<lparr>min_phase_shift = 490 / 3, min_phase_freq = 10,
                 phase_shifts = [490 / 3], frequencies = [10]\<rparr>)"
proof -
  have "calculate_optimized_python (init_calculator True) ex_platform ex_force_square ex_time 650 =
       Inr (Valid \<lparr>min_phase_shift = 490 / 3, min_phase_freq = 10,
                   phase_shifts = [490 / 3], frequencies = [10]\<rparr>)"
    by code_simp
  then show ?thesis
    by (simp add: c_extension_call_raises)
qed

section \<open>Where the code leaves the documented method\<close>

subsection \<open>The platform top\<close>

text \<open>
  The Python path does not read the platform samples between two accepted peaks: its
  result depends on the platform only through the peak indices.
\<close>

lemma analyze_cycle_step_platform:
  "analyze_cycle_step self platform_a force_data time_data static_weight peaks =
   analyze_cycle_step self platform_b force_data time_data static_weight peaks"
  by (rule ext)+ (simp add: analyze_cycle_step_def)

lemma python_path_reads_platform_peaks_only:
  assumes "find_peaks_fast platform_a 50 = find_peaks_fast platform_b 50"
  shows "calculate_optimized_python self platform_a force_data time_data static_weight =
         calculate_optimized_python self platform_b force_data time_data static_weight"
  unfolding calculate_optimized_python_def analyze_cycles_vectorized_def assms
    analyze_cycle_step_platform [of self platform_a _ _ _ _ platform_b]
  by (rule refl)

lemma advanced_phase_shift_deg_360:
  "advanced_phase_shift_deg fref_relative top_p freq =
     (let d = py_mod ((fref_relative - top_p) * freq * 360) 360
      in if d > 180 then 360 - d else d)"
proof -
  have "(fref_relative - top_p) * freq * 2 * pi * (180 / pi) = (fref_relative - top_p) * freq * 360"
    by simp
  then show ?thesis
    unfolding advanced_phase_shift_deg_def Let_def by (simp only:)
qed

text \<open>
  Claim C1 at a concrete record. The cycle runs from sample 5 to sample 60 and the
  platform is highest at sample 30. The Python path returns 490/3 degrees (163.3), the
  phase of the reference time relative to the first sample of the cycle (1/108 s). The true
  platform top is 5/108 s after the cycle start, and relative to it the documented
  formula gives 10/3 degrees (3.3).
\<close>

theorem phase_relative_to_cycle_start:
  "fst (calculate (init_calculator False) ex_platform ex_force_square ex_time 650) =
     Inr (Valid \<lparr>min_phase_shift = 490 / 3, min_phase_freq = 10,
                 phase_shifts = [490 / 3], frequencies = [10]\<rparr>)
   \<and> find_crossings (slice ex_force_square 5 60) (slice ex_time 5 60) 650 = Inr [13 / 360, 79 / 1080]
   \<and> hd (slice ex_time 5 60) = 1 / 108
   \<and> top_p_time (slice ex_platform 5 60) (slice ex_time 5 60) = 5 / 108
   \<and> advanced_phase_shift_deg ((13 / 360 + 79 / 1080) / 2 - 1 / 108) (5 / 108) 10 = 10 / 3"
proof -
  have "advanced_phase_shift_deg ((13 / 360 + 79 / 1080) / 2 - 1 / 108) (5 / 108) 10 = 10 / 3"
    by (simp add: advanced_phase_shift_deg_360 py_mod_def)
  moreover have
    "fst (calculate (init_calculator False) ex_platform ex_force_square ex_time 650) =
       Inr (Valid \<lparr>min_phase_shift = 490 / 3, min_phase_freq = 10,
                   phase_shifts = [490 / 3], frequencies = [10]\<rparr>)"
    by code_simp
  moreover have
    "find_crossings (slice ex_force_square 5 60) (slice ex_time 5 60) 650 = Inr [13 / 360, 79 / 1080]"
    by code_simp
  moreover have "hd (slice ex_time 5 60) = 1 / 108"
    by code_simp
  moreover have "top_p_time (slice ex_platform 5 60) (slice ex_time 5 60) = 5 / 108"
    by code_simp
  ultimately show ?thesis
    by blast
qed

subsection \<open>Cycles without two crossings\<close>

text \<open>
  Claim C2 at a concrete record. The force stays above the static weight, so the one
  cycle in the band has no crossing. \<open>_calculate_phase_fast\<close> returns its sentinel -1.0;
  the Python loop tests the phase against \<open>None\<close>, keeps the sentinel as a phase value, and
  the path returns a valid result with a minimum phase of -1. Nothing is raised. (The
  cycle loop of the C source tests \<open>phase >= 0\<close> at the same place.)
\<close>

theorem sentinel_kept_as_phase:
  "find_crossings (slice ex_force_above 5 60) (slice ex_time 5 60) 650 = Inr []
   \<and> fst (calculate (init_calculator False) ex_platform ex_force_above ex_time 650) =
     Inr (Valid \<lparr>min_phase_shift = - 1, min_phase_freq = 10,
                 phase_shifts = [- 1], frequencies = [10]\<rparr>)"
  by code_simp

subsection \<open>The reference time\<close>

text \<open>
  Claim C3 at two concrete records. In the first the static weight lies outside the band
  that \<open>rfst_fmin\<close> and \<open>rfst_fmax\<close> cut out of the force range of the cycle, and the Python
  path still computes a phase from its crossings. In the second the force rises through the
  static weight exactly at a sample: the first two crossings the code records are both
  upward crossings at 1/27 s, and their mean is the reference time (a phase of 100
  degrees), while the first downward crossing is at 79/1080 s and the midpoint of the
  first downward and the first upward crossing is 119/2160 s.
\<close>

theorem band_and_direction_not_used:
  "\<not> rfst_band_ok (init_calculator False) (slice ex_force_low_band 5 60) 650
   \<and> fst (calculate (init_calculator False) ex_platform ex_force_low_band ex_time 650) =
     Inr (Valid \<lparr>min_phase_shift = 490 / 3, min_phase_freq = 10,
                 phase_shifts = [490 / 3], frequencies = [10]\<rparr>)
   \<and> directed_crossings (slice ex_force_touch 5 60) (slice ex_time 5 60) 650 =
       [(1 / 27, True), (1 / 27, True), (79 / 1080, False)]
   \<and> calculate_fref (directed_crossings (slice ex_force_touch 5 60) (slice ex_time 5 60) 650) =
       Some (119 / 2160)
   \<and> fst (calculate (init_calculator False) ex_platform ex_force_touch ex_time 650) =
     Inr (Valid \<lparr>min_phase_shift = 100, min_phase_freq = 10,
                 phase_shifts = [100], frequencies = [10]\<rparr>)"
  by code_simp

subsection \<open>The minimum phase\<close>

text \<open>
  The frequencies the Python loop returns all lie in the band, both bounds included.
\<close>

lemma analyze_cycle_step_in_band:
  assumes "analyze_cycle_step self platform_data force_data time_data static_weight peaks
             (Inr (phs, frs)) k = Inr (phs', frs')"
    and "\<forall>f \<in> set frs. min_freq self \<le> f \<and> f \<le> max_freq self"
  shows "\<forall>f \<in> set frs'. min_freq self \<le> f \<and> f \<le> max_freq self"
  using assms
  by (auto simp add: analyze_cycle_step_def Let_def split: if_splits sum.splits)

lemma analyze_cycles_in_band:
  assumes "foldl (analyze_cycle_step self platform_data force_data time_data static_weight peaks)
             (Inr (phs, frs)) ks = Inr (phs', frs')"
    and "\<forall>f \<in> set frs. min_freq self \<le> f \<and> f \<le> max_freq self"
  shows "\<forall>f \<in> set frs'. min_freq self \<le> f \<and> f \<le> max_freq self"
  using assms
proof (induction ks arbitrary: phs frs)
  case Nil
  then show ?case by simp
next
  case (Cons k ks)
  show ?case
  proof (cases "analyze_cycle_step self platform_data force_data time_data static_weight peaks
                  (Inr (phs, frs)) k")
    case (Inl err)
    with Cons.prems(1) show ?thesis
      by (simp add: foldl_analyze_cycle_step_Inl)
  next
    case (Inr acc)
    obtain phs1 frs1 where acc: "acc = (phs1, frs1)" by (cases acc)
    from Inr acc analyze_cycle_step_in_band [OF _ Cons.prems(2)]
    have "\<forall>f \<in> set frs1. min_freq self \<le> f \<and> f \<le> max_freq self"
      by simp
    moreover have "foldl (analyze_cycle_step self platform_data force_data time_data static_weight peaks)
             (Inr (phs1, frs1)) ks = Inr (phs', frs')"
      using Cons.prems(1) Inr acc by simp
    ultimately show ?thesis
      by (rule Cons.IH [rotated])
  qed
qed

lemma analyze_cycle_step_lengths:
  assumes "analyze_cycle_step self platform_data force_data time_data static_weight peaks
             (Inr (phs, frs)) k = Inr (phs', frs')"
    and "length phs = length frs"
  shows "length phs' = length frs'"
  using assms
  by (auto simp add: analyze_cycle_step_def Let_def split: if_splits sum.splits)

lemma analyze_cycles_lengths:
  assumes "foldl (analyze_cycle_step self platform_data force_data time_data static_weight peaks)
             (Inr (phs, frs)) ks = Inr (phs', frs')"
    and "length phs = length frs"
  shows "length phs' = length frs'"
  using assms
proof (induction ks arbitrary: phs frs)
  case Nil
  then show ?case by simp
next
  case (Cons k ks)
  show ?case
  proof (cases "analyze_cycle_step self platform_data force_data time_data static_weight peaks
                  (Inr (phs, frs)) k")
    case (Inl err)
    with Cons.prems(1) show ?thesis
      by (simp add: foldl_analyze_cycle_step_Inl)
  next
    case (Inr acc)
    obtain phs1 frs1 where acc: "acc = (phs1, frs1)" by (cases acc)
    from Inr acc analyze_cycle_step_lengths [OF _ Cons.prems(2)]
    have "length phs1 = length frs1"
      by simp
    moreover have "foldl (analyze_cycle_step self platform_data force_data time_data static_weight peaks)
             (Inr (phs1, frs1)) ks = Inr (phs', frs')"
      using Cons.prems(1) Inr acc by simp
    ultimately show ?thesis
      by (rule Cons.IH [rotated])
  qed
qed

text \<open>
  A valid result of the Python path holds exactly one cycle: an empty phase array and a
  single phase of zero count as ``no valid cycles'', and two or more phases raise
  \<open>ValueError\<close> when the array is tested for truth. The frequency of that cycle lies in
  the band.
\<close>

lemma python_path_valid_result:
  assumes "calculate_optimized_python self platform_data force_data time_data static_weight =
             Inr (Valid r)"
  shows "\<exists>p f. r = \<lparr>min_phase_shift = p, min_phase_freq = f, phase_shifts = [p], frequencies = [f]\<rparr> \<and>
               p \<noteq> 0 \<and> min_freq self \<le> f \<and> f \<le> max_freq self"
proof -
  let ?ps = "find_peaks_fast platform_data 50"
  from assms have two: "\<not> length ?ps < 2"
    by (auto simp add: calculate_optimized_python_def Let_def split: if_splits)
  from assms two obtain phs frs where
    an: "analyze_cycles_vectorized self platform_data force_data time_data static_weight ?ps = Inr (phs, frs)"
    by (auto simp add: calculate_optimized_python_def Let_def split: sum.splits)
  from assms two an obtain p where phs: "phs = [p]" and p0: "p \<noteq> 0"
    by (auto simp add: calculate_optimized_python_def Let_def array_truth_def
        split: sum.splits list.splits if_splits)
  have r: "r = \<lparr>min_phase_shift = p, min_phase_freq = frs ! 0, phase_shifts = [p], frequencies = frs\<rparr>"
    using assms two an phs p0
    by (simp add: calculate_optimized_python_def Let_def array_truth_def argmin_def)
  have "length phs = length frs"
    using an analyze_cycles_lengths [of self platform_data force_data time_data static_weight ?ps
        "[]" "[]" "[1 ..< length ?ps]" phs frs]
    by (simp add: analyze_cycles_vectorized_def)
  then obtain f where frs: "frs = [f]"
    using phs by (cases frs) auto
  have "\<forall>f \<in> set frs. min_freq self \<le> f \<and> f \<le> max_freq self"
    using an analyze_cycles_in_band [of self platform_data force_data time_data static_weight ?ps
        "[]" "[]" "[1 ..< length ?ps]" phs frs]
    by (simp add: analyze_cycles_vectorized_def)
  with r frs p0 show ?thesis
    by simp
qed

text \<open>
  The C source, read for a call with the seven arguments of its format string: every
  cycle it keeps has a frequency in the band and a phase that is not negative, and its
  minimum search returns the first least phase together with the frequency of the same
  cycle.
\<close>

lemma c_min_scan_invariant:
  assumes "0 < length cycles" and "m \<le> length cycles" and "1 \<le> m"
  shows "case foldl (c_min_step cycles) (phase_shift (cycles ! 0), frequency (cycles ! 0), 0) [1 ..< m] of
           (min_phase, min_phase_f, min_idx) \<Rightarrow>
             min_idx < m \<and> min_phase = phase_shift (cycles ! min_idx) \<and>
             min_phase_f = frequency (cycles ! min_idx) \<and>
             (\<forall>j < m. min_phase \<le> phase_shift (cycles ! j)) \<and>
             (\<forall>j < min_idx. min_phase < phase_shift (cycles ! j))"
  using assms(2,3)
proof (induction m)
  case 0
  then show ?case by simp
next
  case (Suc m)
  show ?case
  proof (cases "m = 0")
    case True
    then show ?thesis by simp
  next
    case False
    then have m1: "1 \<le> m" and mle: "m \<le> length cycles" using Suc.prems by simp_all
    obtain mp mf mi where st:
      "foldl (c_min_step cycles) (phase_shift (cycles ! 0), frequency (cycles ! 0), 0) [1 ..< m] = (mp, mf, mi)"
      by (metis prod_cases3)
    from Suc.IH [OF mle m1] have inv:
      "mi < m" "mp = phase_shift (cycles ! mi)" "mf = frequency (cycles ! mi)"
      "\<forall>j < m. mp \<le> phase_shift (cycles ! j)" "\<forall>j < mi. mp < phase_shift (cycles ! j)"
      unfolding st by auto
    have upt: "[1 ..< Suc m] = [1 ..< m] @ [m]"
      using m1 by simp
    show ?thesis
      unfolding upt foldl_append st
      using inv by (auto simp add: c_min_step_def less_Suc_eq)
  qed
qed

lemma c_cycle_step_grows:
  "c_cycle_step force time_arr sw min_f max_f peaks cycles k = cycles \<or>
   (\<exists>c. c_cycle_step force time_arr sw min_f max_f peaks cycles k = cycles @ [c] \<and>
        min_f \<le> frequency c \<and> frequency c \<le> max_f \<and> 0 \<le> phase_shift c)"
proof (cases "c_calculate_cycle_phase force time_arr (peaks ! (k - 1)) (peaks ! k) sw")
  case None
  then show ?thesis
    by (simp add: c_cycle_step_def Let_def)
next
  case (Some phase)
  then show ?thesis
    by (simp add: c_cycle_step_def Let_def not_less)
qed

lemma c_cycle_step_kept:
  assumes "\<forall>c \<in> set cycles. min_f \<le> frequency c \<and> frequency c \<le> max_f \<and> 0 \<le> phase_shift c"
  shows "\<forall>c \<in> set (c_cycle_step force time_arr sw min_f max_f peaks cycles k).
           min_f \<le> frequency c \<and> frequency c \<le> max_f \<and> 0 \<le> phase_shift c"
  using assms c_cycle_step_grows [of force time_arr sw min_f max_f peaks cycles k]
  by auto

lemma c_cycle_loop_kept:
  "\<forall>c \<in> set (c_cycle_loop force time_arr sw min_f max_f peaks).
     min_f \<le> frequency c \<and> frequency c \<le> max_f \<and> 0 \<le> phase_shift c"
  unfolding c_cycle_loop_def
proof (rule foldl_invariant
    [where P = "\<lambda>cs. \<forall>c \<in> set cs. min_f \<le> frequency c \<and> frequency c \<le> max_f \<and> 0 \<le> phase_shift c"])
  show "\<forall>c \<in> set []. min_f \<le> frequency c \<and> frequency c \<le> max_f \<and> 0 \<le> phase_shift c"
    by simp
next
  fix cycles :: "cycle_data list" and k
  assume "\<forall>c \<in> set cycles. min_f \<le> frequency c \<and> frequency c \<le> max_f \<and> 0 \<le> phase_shift c"
  then show "\<forall>c \<in> set (c_cycle_step force time_arr sw min_f max_f peaks cycles k).
           min_f \<le> frequency c \<and> frequency c \<le> max_f \<and> 0 \<le> phase_shift c"
    by (rule c_cycle_step_kept)
qed

lemma c_min_search_first_minimum:
  assumes "0 < length cycles" and "c_min_search cycles = (min_phase, min_phase_f, min_idx)"
  shows "min_idx < length cycles \<and> min_phase = phase_shift (cycles ! min_idx) \<and>
         min_phase_f = frequency (cycles ! min_idx) \<and>
         (\<forall>j < length cycles. min_phase \<le> phase_shift (cycles ! j)) \<and>
         (\<forall>j < min_idx. min_phase < phase_shift (cycles ! j))"
proof -
  have "1 \<le> length cycles" using assms(1) by linarith
  from c_min_scan_invariant [OF assms(1) order_refl this] assms(2) show ?thesis
    unfolding c_min_search_def by auto
qed

lemma c_source_minimum:
  assumes "c_calculate_phase_shift platform_data force_data time_data
             [static_weight, min_f, max_f, rfst_lo] = Inr (Valid r)"
  shows "(\<forall>f \<in> set (frequencies r). min_f \<le> f \<and> f \<le> max_f) \<and>
         (\<forall>p \<in> set (phase_shifts r). 0 \<le> p \<and> min_phase_shift r \<le> p) \<and>
         length (frequencies r) = length (phase_shifts r) \<and>
         (\<exists>k < length (phase_shifts r).
            phase_shifts r ! k = min_phase_shift r \<and> frequencies r ! k = min_phase_freq r)"
proof -
  define cycles where
    "cycles = c_cycle_loop force_data time_data static_weight min_f max_f
                (c_find_peaks platform_data (length platform_data) (length platform_data div 10) 50)"
  obtain mp mf mi where st: "c_min_search cycles = (mp, mf, mi)"
    by (rule prod_cases3)
  from assms have ne: "0 < length cycles"
    and r: "r = \<lparr>min_phase_shift = mp, min_phase_freq = mf,
                 phase_shifts = map phase_shift cycles, frequencies = map frequency cycles\<rparr>"
    unfolding c_calculate_phase_shift_def list.case Let_def cycles_def [symmetric]
    by (simp_all add: st split: if_splits)
  have kept: "\<forall>c \<in> set cycles. min_f \<le> frequency c \<and> frequency c \<le> max_f \<and> 0 \<le> phase_shift c"
    unfolding cycles_def by (rule c_cycle_loop_kept)
  note fm = c_min_search_first_minimum [OF ne st]
  have mi: "mi < length cycles" using fm by blast
  have mp: "mp = phase_shift (cycles ! mi)" using fm by blast
  have mf: "mf = frequency (cycles ! mi)" using fm by blast
  have le: "\<forall>j < length cycles. mp \<le> phase_shift (cycles ! j)" using fm by blast
  have least: "mp \<le> phase_shift c" if "c \<in> set cycles" for c
  proof -
    from that obtain j where "j < length cycles" and "cycles ! j = c"
      by (auto simp add: in_set_conv_nth)
    with le show ?thesis by blast
  qed
  have band: "\<forall>f \<in> set (frequencies r). min_f \<le> f \<and> f \<le> max_f"
    using kept unfolding r by simp
  have phases: "\<forall>p \<in> set (phase_shifts r). 0 \<le> p \<and> min_phase_shift r \<le> p"
    using kept least unfolding r by simp
  have len: "length (frequencies r) = length (phase_shifts r)"
    unfolding r by simp
  have "phase_shifts r ! mi = min_phase_shift r \<and> frequencies r ! mi = min_phase_freq r"
    using mi mp mf unfolding r by simp
  moreover have "mi < length (phase_shifts r)"
    using mi unfolding r by simp
  ultimately have ex: "\<exists>k < length (phase_shifts r).
      phase_shifts r ! k = min_phase_shift r \<and> frequencies r ! k = min_phase_freq r"
    by blast
  show ?thesis
    by (rule conjI [OF band conjI [OF phases conjI [OF len ex]]])
qed

text \<open>
  Claim C4 at a concrete record. The force stays below the static weight: the one cycle
  in the band has no crossing and is not a valid cycle. The Python path returns a valid
  result whose minimum phase, -1, is the sentinel of that cycle, and whose frequency at
  the minimum is the frequency of that cycle.
\<close>

theorem minimum_over_invalid_cycle:
  "find_crossings (slice ex_force_below 5 60) (slice ex_time 5 60) 650 = Inr []
   \<and> fst (calculate (init_calculator False) ex_platform ex_force_below ex_time 650) =
     Inr (Valid \<lparr>min_phase_shift = - 1, min_phase_freq = 10,
                 phase_shifts = [- 1], frequencies = [10]\<rparr>)"
  by code_simp

end
